theory Spec2Isabelle
  imports Complex_Main "HOL-Library.AList" "HOL-Library.Sublist"
begin

section \<open>Numeric cells\<close>

text \<open>
  A cell of a pandas column is a float64. The model keeps the special values the code
  relies on (\<open>NaN\<close>, the "no value" marker, and the two infinities that a division by
  zero yields) and takes every other value as an exact real number: rounding error and
  overflow are outside the model, and there is one zero.
\<close>

datatype fval = NaN | NInf | Fin real | PInf

fun fsub :: "fval \<Rightarrow> fval \<Rightarrow> fval" where
  "fsub NaN _ = NaN"
| "fsub _ NaN = NaN"
| "fsub (Fin a) (Fin b) = Fin (a - b)"
| "fsub (Fin _) PInf = NInf"
| "fsub (Fin _) NInf = PInf"
| "fsub PInf PInf = NaN"
| "fsub PInf _ = PInf"
| "fsub NInf NInf = NaN"
| "fsub NInf _ = NInf"

fun fdiv :: "fval \<Rightarrow> fval \<Rightarrow> fval" where
  "fdiv NaN _ = NaN"
| "fdiv _ NaN = NaN"
| "fdiv (Fin a) (Fin b) =
     (if b = 0 then (if 0 < a then PInf else if a < 0 then NInf else NaN)
      else Fin (a / b))"
| "fdiv (Fin _) _ = Fin 0"
| "fdiv PInf (Fin b) = (if b < 0 then NInf else PInf)"
| "fdiv NInf (Fin b) = (if b < 0 then PInf else NInf)"
| "fdiv _ _ = NaN"


text \<open>Comparisons: every comparison with \<open>NaN\<close> is false, also \<open>NaN == NaN\<close>.\<close>

fun flt :: "fval \<Rightarrow> fval \<Rightarrow> bool" where
  "flt NaN _ = False"
| "flt _ NaN = False"
| "flt (Fin a) (Fin b) = (a < b)"
| "flt NInf NInf = False"
| "flt NInf _ = True"
| "flt _ NInf = False"
| "flt PInf _ = False"
| "flt _ PInf = True"

definition fgt :: "fval \<Rightarrow> fval \<Rightarrow> bool" where
  "fgt x y = flt y x"

definition feq :: "fval \<Rightarrow> fval \<Rightarrow> bool" where
  "feq x y = (x \<noteq> NaN \<and> x = y)"

definition fle :: "fval \<Rightarrow> fval \<Rightarrow> bool" where
  "fle x y = (flt x y \<or> feq x y)"

section \<open>Data frames\<close>

text \<open>
  A \<open>pd.DataFrame\<close>: the row labels (timestamps) and the named columns in their order.
  pandas keeps every column as long as the index; \<open>frame_ok\<close> states this.
\<close>

record 't frame =
  index :: "'t list"
  columns :: "(string \<times> fval list) list"

definition frame_ok :: "'t frame \<Rightarrow> bool" where
  "frame_ok df = list_all (\<lambda>c. length (snd c) = length (index df)) (columns df)"

datatype exn = KeyError string | RuntimeError string | ValueError string

text \<open>\<open>df[name]\<close> raises \<open>KeyError\<close> for an absent column.\<close>

definition getitem :: "'t frame \<Rightarrow> string \<Rightarrow> exn + fval list" where
  "getitem df name =
     (case map_of (columns df) name of
        None \<Rightarrow> Inl (KeyError name)
      | Some col \<Rightarrow> Inr col)"

text \<open>\<open>df[name] = col\<close> replaces the column where it stands, or appends a new one.\<close>

definition setitem :: "'t frame \<Rightarrow> string \<Rightarrow> fval list \<Rightarrow> 't frame" where
  "setitem df name col = df\<lparr>columns := AList.update name col (columns df)\<rparr>"

text \<open>\<open>df.copy()\<close> yields a frame with the same labels and cells.\<close>

definition copy :: "'t frame \<Rightarrow> 't frame" where
  "copy df = \<lparr>index = index df, columns = columns df\<rparr>"

section \<open>Column operations of pandas used by the program\<close>

text \<open>
  \<open>Series.rolling(window, min_periods).mean()\<close>. pandas first turns infinite cells into
  missing ones; the window at position \<open>i\<close> holds the positions
  \<open>max(0, i - window + 1) .. i\<close>; the result is the mean of the cells present in the
  window when at least \<open>min_periods\<close> (and at least one) are present, and \<open>NaN\<close> otherwise.
\<close>

definition prep_values :: "fval list \<Rightarrow> fval list" where
  "prep_values xs = map (\<lambda>v. case v of Fin a \<Rightarrow> Fin a | _ \<Rightarrow> NaN) xs"

fun fin_values :: "fval list \<Rightarrow> real list" where
  "fin_values [] = []"
| "fin_values (Fin a # vs) = a # fin_values vs"
| "fin_values (_ # vs) = fin_values vs"

definition window_at :: "nat \<Rightarrow> nat \<Rightarrow> 'a list \<Rightarrow> 'a list" where
  "window_at window i xs =
     (let start = (if window \<le> i + 1 then i + 1 - window else 0)
      in take (i + 1 - start) (drop start xs))"

definition window_mean :: "nat \<Rightarrow> fval list \<Rightarrow> fval" where
  "window_mean min_periods w =
     (let obs = fin_values w; k = length obs
      in if min_periods \<le> k \<and> 0 < k then Fin (sum_list obs / real k) else NaN)"

definition rolling_mean :: "nat \<Rightarrow> nat \<Rightarrow> fval list \<Rightarrow> fval list" where
  "rolling_mean window min_periods xs =
     (let vals = prep_values xs
      in map (\<lambda>i. window_mean min_periods (window_at window i vals)) [0..<length vals])"

text \<open>
  \<open>Series.pct_change()\<close> computes \<open>data / data.shift(1) - 1\<close>. Releases of pandas before
  3.0 first fill missing cells forward (\<open>fill_method='pad'\<close>), later ones do not; the
  repository pins no release, so the fill method is a parameter of the model.
\<close>

datatype fill_method = Pad | NoFill

fun ffill_from :: "fval \<Rightarrow> fval list \<Rightarrow> fval list" where
  "ffill_from prev [] = []"
| "ffill_from prev (v # vs) =
     (if v = NaN then prev # ffill_from prev vs else v # ffill_from v vs)"

definition ffill :: "fval list \<Rightarrow> fval list" where
  "ffill xs = ffill_from NaN xs"

definition shift1 :: "fval list \<Rightarrow> fval list" where
  "shift1 xs = (if xs = [] then [] else NaN # butlast xs)"

definition pct_change :: "fill_method \<Rightarrow> fval list \<Rightarrow> fval list" where
  "pct_change fm xs =
     (let data = (case fm of Pad \<Rightarrow> ffill xs | NoFill \<Rightarrow> xs)
      in map2 (\<lambda>cur prev. fsub (fdiv cur prev) (Fin 1)) data (shift1 data))"

text \<open>Elementwise difference of two columns of one frame.\<close>

definition series_sub :: "fval list \<Rightarrow> fval list \<Rightarrow> fval list" where
  "series_sub xs ys = map2 fsub xs ys"

text \<open>
  \<open>Series.diff()\<close> on a column of integers: no value at the first position, then the
  difference to the previous entry.
\<close>

definition series_diff :: "int list \<Rightarrow> fval list" where
  "series_diff s =
     (if s = [] then []
      else NaN # map2 (\<lambda>cur prev. Fin (real_of_int (cur - prev))) (tl s) (butlast s))"

text \<open>\<open>df.index[mask]\<close>: the labels at the positions where the mask is true.\<close>

definition index_mask :: "'t list \<Rightarrow> bool list \<Rightarrow> 't list" where
  "index_mask idx msk = map fst (filter snd (zip idx msk))"






section \<open>The indicator engine\<close>

text \<open>
  \<open>compute_indicators\<close> of the source: copy the frame, then add the 20-row and the
  50-row rolling mean of \<open>Close\<close> and its row-over-row change. Each statement reads
  \<open>df['Close']\<close> anew, and a frame without that column raises \<open>KeyError\<close>.
\<close>

definition compute_indicators :: "fill_method \<Rightarrow> 't frame \<Rightarrow> exn + 't frame" where
  "compute_indicators fm df0 =
     (let df1 = copy df0 in
      case getitem df1 ''Close'' of
        Inl e \<Rightarrow> Inl e
      | Inr c1 \<Rightarrow>
          (let df2 = setitem df1 ''MA_20'' (rolling_mean 20 1 c1) in
           case getitem df2 ''Close'' of
             Inl e \<Rightarrow> Inl e
           | Inr c2 \<Rightarrow>
               (let df3 = setitem df2 ''MA_50'' (rolling_mean 50 1 c2) in
                case getitem df3 ''Close'' of
                  Inl e \<Rightarrow> Inl e
                | Inr c3 \<Rightarrow> Inr (setitem df3 ''Daily_Return'' (pct_change fm c3)))))"

subsection \<open>The engine on references\<close>

text \<open>
  A Python name holds a reference to a frame object. The heap lists the objects
  allocated so far and a reference is a position in it: \<open>df.copy()\<close> allocates a new
  object at the end, and \<open>df[name] = col\<close> updates the object that \<open>df\<close> refers to.
\<close>

type_synonym 't heap = "'t frame list"

definition heap_copy :: "'t heap \<Rightarrow> nat \<Rightarrow> nat \<times> 't heap" where
  "heap_copy h r = (length h, h @ [copy (h ! r)])"

definition heap_setitem :: "'t heap \<Rightarrow> nat \<Rightarrow> string \<Rightarrow> fval list \<Rightarrow> 't heap" where
  "heap_setitem h r name col = h[r := setitem (h ! r) name col]"

text \<open>
  \<open>compute_indicators\<close> on references: the result is the reference returned (or the
  exception raised) and the heap after the call.
\<close>

definition compute_indicators_heap ::
    "fill_method \<Rightarrow> 't heap \<Rightarrow> nat \<Rightarrow> (exn + nat) \<times> 't heap" where
  "compute_indicators_heap fm h0 arg =
     (let (df, h1) = heap_copy h0 arg in
      case getitem (h1 ! df) ''Close'' of
        Inl e \<Rightarrow> (Inl e, h1)
      | Inr c1 \<Rightarrow>
          (let h2 = heap_setitem h1 df ''MA_20'' (rolling_mean 20 1 c1) in
           case getitem (h2 ! df) ''Close'' of
             Inl e \<Rightarrow> (Inl e, h2)
           | Inr c2 \<Rightarrow>
               (let h3 = heap_setitem h2 df ''MA_50'' (rolling_mean 50 1 c2) in
                case getitem (h3 ! df) ''Close'' of
                  Inl e \<Rightarrow> (Inl e, h3)
                | Inr c3 \<Rightarrow>
                    (Inr df, heap_setitem h3 df ''Daily_Return'' (pct_change fm c3)))))"

section \<open>The crossover detector\<close>

text \<open>The lambda of the source: \<open>1 if x > 0 else (-1 if x < 0 else 0)\<close>.\<close>

definition sign_of :: "fval \<Rightarrow> int" where
  "sign_of x = (if fgt x (Fin 0) then 1 else (if flt x (Fin 0) then - 1 else 0))"

text \<open>
  \<open>find_crossovers\<close> of the source: the difference of the two averages, its sign, the
  row-over-row difference of the sign, and the labels where that difference equals 2
  (bullish) or -2 (bearish).
\<close>

definition find_crossovers :: "'t frame \<Rightarrow> exn + ('t list \<times> 't list)" where
  "find_crossovers df =
     (case getitem df ''MA_20'' of
        Inl e \<Rightarrow> Inl e
      | Inr ma_short \<Rightarrow>
          (case getitem df ''MA_50'' of
             Inl e \<Rightarrow> Inl e
           | Inr ma_long \<Rightarrow>
               (let diff = series_sub ma_short ma_long;
                    sign = map sign_of diff;
                    signal = series_diff sign;
                    bullish = index_mask (index df) (map (\<lambda>v. feq v (Fin 2)) signal);
                    bearish = index_mask (index df) (map (\<lambda>v. feq v (Fin (- 2))) signal)
                in Inr (bullish, bearish))))"

section \<open>The return statistics of the summary\<close>



section \<open>Fetching the data and running the program\<close>












section \<open>The notions of the specification\<close>

text \<open>
  The rule in the words of the specification: the positions \<open>i \<ge> 1\<close> at which
  \<open>sign[i] - sign[i-1]\<close> equals \<open>d\<close>, where \<open>sign[i]\<close> is the sign of
  \<open>ma_short[i] - ma_long[i]\<close>. The detector itself is written with whole-column
  operations; the two are compared below.
\<close>

definition crossover_positions :: "fval list \<Rightarrow> fval list \<Rightarrow> int \<Rightarrow> nat list" where
  "crossover_positions ma_short ma_long d =
     filter (\<lambda>i. 1 \<le> i \<and>
                 sign_of (fsub (ma_short ! i) (ma_long ! i))
                   - sign_of (fsub (ma_short ! (i - 1)) (ma_long ! (i - 1))) = d)
            [0..<length ma_short]"

text \<open>
  The arithmetic mean of a list of numbers, and the range \<open>xs[lo..hi]\<close> with both
  ends included.
\<close>

definition mean :: "real list \<Rightarrow> real" where
  "mean xs = sum_list xs / real (length xs)"

definition slice :: "nat \<Rightarrow> nat \<Rightarrow> 'a list \<Rightarrow> 'a list" where
  "slice lo hi xs = take (hi + 1 - lo) (drop lo xs)"

section \<open>Example inputs\<close>

definition ex_cross :: "nat frame" where
  "ex_cross =
     \<lparr>index = [10, 20, 30, 40, 50, 60],
      columns = [(''MA_20'', [Fin 5, Fin 7, Fin 7, Fin 4, Fin 9, Fin 3]),
                 (''MA_50'', [Fin 6, Fin 6, Fin 7, Fin 8, Fin 8, Fin 8])]\<rparr>"

definition ex_tie :: "nat frame" where
  "ex_tie =
     \<lparr>index = [1, 2, 3],
      columns = [(''MA_20'', [Fin 1, Fin 2, Fin 3]),
                 (''MA_50'', [Fin 2, Fin 2, Fin 2])]\<rparr>"

definition ex_five :: "nat frame" where
  "ex_five =
     \<lparr>index = [0, 1, 2, 3, 4],
      columns = [(''Close'', [Fin 9, Fin 9, Fin 9, Fin 9, Fin 9]),
                 (''MA_20'', [Fin 1, Fin 1, Fin 3, Fin 3, Fin 1]),
                 (''MA_50'', [Fin 2, Fin 2, Fin 2, Fin 2, Fin 2])]\<rparr>"


definition ex_closes :: "real list" where
  "ex_closes = [10] @ replicate 20 1 @ [100]"

definition ex_prices :: "nat frame" where
  "ex_prices =
     \<lparr>index = [0..<22],
      columns = [(''Open'', replicate 22 (Fin 1)),
                 (''Close'', map Fin ex_closes)]\<rparr>"

definition ex_returns :: "nat frame" where
  "ex_returns =
     \<lparr>index = [1, 2, 3, 4],
      columns = [(''Close'', [Fin 2, Fin 4, Fin 0, Fin 3])]\<rparr>"

definition ex_rising :: "nat frame" where
  "ex_rising =
     \<lparr>index = [0..<60],
      columns = [(''Close'', map (\<lambda>i. Fin (100 + real i)) [0..<60])]\<rparr>"



section \<open>Columns of a frame\<close>

lemma getitem_setitem_same: "getitem (setitem df k v) k = Inr v"
  by (simp add: getitem_def setitem_def update_conv')

lemma getitem_setitem_other: "k' \<noteq> k \<Longrightarrow> getitem (setitem df k v) k' = getitem df k'"
  by (simp add: getitem_def setitem_def update_conv')

lemma getitem_copy: "getitem (copy df) k = getitem df k"
  by (simp add: getitem_def copy_def)

lemma index_setitem: "index (setitem df k v) = index df"
  by (simp add: setitem_def)

lemma index_copy: "index (copy df) = index df"
  by (simp add: copy_def)

lemma frame_ok_getitem:
  assumes "frame_ok df" "getitem df k = Inr c"
  shows "length c = length (index df)"
proof -
  from assms(2) have "map_of (columns df) k = Some c"
    by (simp add: getitem_def split: option.splits)
  then have "(k, c) \<in> set (columns df)"
    by (rule map_of_SomeD)
  with assms(1) show ?thesis
    by (auto simp: frame_ok_def list_all_iff)
qed




section \<open>The detector selects the positions of the rule\<close>

lemma zip_conv_nth:
  assumes "length ys = length xs"
  shows "zip xs ys = map (\<lambda>i. (xs ! i, ys ! i)) [0..<length xs]"
proof (rule nth_equalityI)
  show "length (zip xs ys) = length (map (\<lambda>i. (xs ! i, ys ! i)) [0..<length xs])"
    using assms by simp
next
  fix i assume "i < length (zip xs ys)"
  then show "zip xs ys ! i = map (\<lambda>i. (xs ! i, ys ! i)) [0..<length xs] ! i"
    using assms by simp
qed

lemma index_mask_positions:
  assumes "length msk = length idx"
  shows "index_mask idx msk = map (\<lambda>i. idx ! i) (filter (\<lambda>i. msk ! i) [0..<length idx])"
  unfolding index_mask_def zip_conv_nth [OF assms]
  by (simp add: filter_map comp_def)

lemma length_series_diff: "length (series_diff s) = length s"
  by (cases s) (simp_all add: series_diff_def)

lemma series_diff_nth:
  assumes "i < length s"
  shows "series_diff s ! i = (if i = 0 then NaN else Fin (real_of_int (s ! i - s ! (i - 1))))"
proof (cases i)
  case 0
  with assms show ?thesis by (auto simp: series_diff_def)
next
  case (Suc j)
  with assms have "s \<noteq> []" by auto
  moreover have "j < length (tl s)" "j < length (butlast s)"
    using assms Suc by simp_all
  ultimately show ?thesis
    using Suc assms by (simp add: series_diff_def nth_tl nth_butlast)
qed

lemma signal_eq_iff:
  assumes "i < length s"
  shows "feq (series_diff s ! i) (Fin (real_of_int d)) \<longleftrightarrow> 1 \<le> i \<and> s ! i - s ! (i - 1) = d"
  using assms by (auto simp: series_diff_nth feq_def)

lemma length_series_sub: "length (series_sub xs ys) = min (length xs) (length ys)"
  by (simp add: series_sub_def)

lemma series_sub_nth:
  "i < length xs \<Longrightarrow> i < length ys \<Longrightarrow> series_sub xs ys ! i = fsub (xs ! i) (ys ! i)"
  by (simp add: series_sub_def)

lemma mask_positions:
  assumes "length ma_short = n" "length ma_long = n" "length idx = n"
  shows "index_mask idx (map (\<lambda>v. feq v (Fin (real_of_int d)))
            (series_diff (map sign_of (series_sub ma_short ma_long))))
         = map (\<lambda>i. idx ! i) (crossover_positions ma_short ma_long d)"
proof -
  let ?sign = "map sign_of (series_sub ma_short ma_long)"
  let ?msk = "map (\<lambda>v. feq v (Fin (real_of_int d))) (series_diff ?sign)"
  have len: "length ?sign = n" "length ?msk = length idx"
    using assms by (simp_all add: length_series_diff length_series_sub)
  have "filter (\<lambda>i. ?msk ! i) [0..<n]
        = crossover_positions ma_short ma_long d"
    unfolding crossover_positions_def assms(1)
  proof (rule filter_cong [OF refl])
    fix i assume "i \<in> set [0..<n]"
    then have i: "i < n" by simp
    then have "?msk ! i \<longleftrightarrow> 1 \<le> i \<and> ?sign ! i - ?sign ! (i - 1) = d"
      using len signal_eq_iff [of i ?sign d] by (simp add: length_series_diff)
    moreover have "?sign ! i = sign_of (fsub (ma_short ! i) (ma_long ! i))"
      using i assms by (simp add: length_series_sub series_sub_nth)
    moreover have "?sign ! (i - 1) = sign_of (fsub (ma_short ! (i - 1)) (ma_long ! (i - 1)))"
      using i assms by (simp add: length_series_sub series_sub_nth)
    ultimately show "?msk ! i \<longleftrightarrow> 1 \<le> i \<and>
        sign_of (fsub (ma_short ! i) (ma_long ! i))
          - sign_of (fsub (ma_short ! (i - 1)) (ma_long ! (i - 1))) = d"
      by simp
  qed
  then show ?thesis
    using index_mask_positions [OF len(2)] assms(3) by simp
qed

lemma find_crossovers_positions:
  assumes "getitem df ''MA_20'' = Inr ma_short" "getitem df ''MA_50'' = Inr ma_long"
    and "length ma_short = length (index df)" "length ma_long = length (index df)"
  shows "find_crossovers df =
           Inr (map (\<lambda>i. index df ! i) (crossover_positions ma_short ma_long 2),
                map (\<lambda>i. index df ! i) (crossover_positions ma_short ma_long (- 2)))"
proof -
  have "index_mask (index df) (map (\<lambda>v. feq v (Fin 2))
            (series_diff (map sign_of (series_sub ma_short ma_long))))
         = map (\<lambda>i. index df ! i) (crossover_positions ma_short ma_long 2)"
    using mask_positions [OF assms(3) assms(4) refl, of 2] by simp
  moreover have "index_mask (index df) (map (\<lambda>v. feq v (Fin (- 2)))
            (series_diff (map sign_of (series_sub ma_short ma_long))))
         = map (\<lambda>i. index df ! i) (crossover_positions ma_short ma_long (- 2))"
    using mask_positions [OF assms(3) assms(4) refl, of "- 2"] by simp
  ultimately show ?thesis
    using assms(1,2) by (simp add: find_crossovers_def)
qed

lemma sign_of_cases: "sign_of x = 1 \<or> sign_of x = - 1 \<or> sign_of x = 0"
  by (simp add: sign_of_def)

lemma sign_of_Fin: "sign_of (Fin a) = (if 0 < a then 1 else if a < 0 then - 1 else 0)"
  by (simp add: sign_of_def fgt_def)

lemma sign_of_fsub_same: "sign_of (fsub a a) = 0"
  by (cases a) (simp_all add: sign_of_def fgt_def)

lemma crossover_positions_subset:
  "j \<in> set (crossover_positions ma_short ma_long d) \<Longrightarrow>
     1 \<le> j \<and> j < length ma_short \<and>
     sign_of (fsub (ma_short ! j) (ma_long ! j))
       - sign_of (fsub (ma_short ! (j - 1)) (ma_long ! (j - 1))) = d"
  by (simp add: crossover_positions_def)

lemma crossover_positions_empty:
  assumes "\<And>j. 1 \<le> j \<Longrightarrow> j < length ma_short \<Longrightarrow>
     sign_of (fsub (ma_short ! j) (ma_long ! j))
       - sign_of (fsub (ma_short ! (j - 1)) (ma_long ! (j - 1))) \<noteq> d"
  shows "crossover_positions ma_short ma_long d = []"
  using assms by (auto simp: crossover_positions_def filter_empty_conv)

lemma no_cross_after_tie:
  assumes "p \<in> set (crossover_positions ma_short ma_long d)" "d = 2 \<or> d = - 2"
  shows "sign_of (fsub (ma_short ! (p - 1)) (ma_long ! (p - 1))) \<noteq> 0"
proof
  assume z: "sign_of (fsub (ma_short ! (p - 1)) (ma_long ! (p - 1))) = 0"
  from crossover_positions_subset [OF assms(1)]
  have "sign_of (fsub (ma_short ! p) (ma_long ! p)) = d"
    using z by simp
  with assms(2) sign_of_cases [of "fsub (ma_short ! p) (ma_long ! p)"]
  show False by auto
qed

lemma no_bearish_without_negative_sign:
  assumes "\<And>j. j < length ma_short \<Longrightarrow> sign_of (fsub (ma_short ! j) (ma_long ! j)) \<noteq> - 1"
  shows "crossover_positions ma_short ma_long (- 2) = []"
proof (rule crossover_positions_empty)
  fix j assume j: "1 \<le> j" "j < length ma_short"
  have "sign_of (fsub (ma_short ! j) (ma_long ! j)) \<noteq> - 1"
    using j assms by simp
  then show "sign_of (fsub (ma_short ! j) (ma_long ! j))
               - sign_of (fsub (ma_short ! (j - 1)) (ma_long ! (j - 1))) \<noteq> - 2"
    using sign_of_cases [of "fsub (ma_short ! j) (ma_long ! j)"]
      sign_of_cases [of "fsub (ma_short ! (j - 1)) (ma_long ! (j - 1))"]
    by auto
qed

section \<open>Order and overlap of the selected labels\<close>





section \<open>What the indicator engine returns\<close>

lemma compute_indicators_run:
  assumes "getitem df ''Close'' = Inr c"
  shows "compute_indicators fm df =
           Inr (setitem (setitem (setitem (copy df)
                  ''MA_20'' (rolling_mean 20 1 c))
                  ''MA_50'' (rolling_mean 50 1 c))
                  ''Daily_Return'' (pct_change fm c))"
  using assms
  by (simp add: compute_indicators_def Let_def getitem_copy getitem_setitem_other)

lemma compute_indicators_no_close:
  assumes "getitem df ''Close'' = Inl e"
  shows "compute_indicators fm df = Inl e"
  using assms by (simp add: compute_indicators_def Let_def getitem_copy)

lemma compute_indicators_columns:
  assumes "getitem df ''Close'' = Inr c"
  obtains df' where "compute_indicators fm df = Inr df'"
    and "index df' = index df"
    and "getitem df' ''Close'' = Inr c"
    and "getitem df' ''MA_20'' = Inr (rolling_mean 20 1 c)"
    and "getitem df' ''MA_50'' = Inr (rolling_mean 50 1 c)"
    and "getitem df' ''Daily_Return'' = Inr (pct_change fm c)"
proof -
  let ?r = "setitem (setitem (setitem (copy df)
                  ''MA_20'' (rolling_mean 20 1 c))
                  ''MA_50'' (rolling_mean 50 1 c))
                  ''Daily_Return'' (pct_change fm c)"
  have "compute_indicators fm df = Inr ?r"
    by (rule compute_indicators_run [OF assms])
  moreover have "index ?r = index df"
    by (simp add: index_setitem index_copy)
  moreover have "getitem ?r ''Close'' = Inr c"
    using assms by (simp add: getitem_setitem_other getitem_copy)
  moreover have "getitem ?r ''MA_20'' = Inr (rolling_mean 20 1 c)"
    by (simp add: getitem_setitem_other getitem_setitem_same)
  moreover have "getitem ?r ''MA_50'' = Inr (rolling_mean 50 1 c)"
    by (simp add: getitem_setitem_other getitem_setitem_same)
  moreover have "getitem ?r ''Daily_Return'' = Inr (pct_change fm c)"
    by (simp add: getitem_setitem_same)
  ultimately show ?thesis by (rule that)
qed

section \<open>Rolling means\<close>

lemma length_rolling_mean: "length (rolling_mean w m xs) = length xs"
  by (simp add: rolling_mean_def prep_values_def)

lemma prep_values_Fin: "prep_values (map Fin cs) = map Fin cs"
  by (simp add: prep_values_def)

lemma fin_values_Fin: "fin_values (map Fin cs) = cs"
  by (induction cs) simp_all

lemma slice_map: "slice lo hi (map f xs) = map f (slice lo hi xs)"
  by (simp add: slice_def take_map drop_map)

lemma window_at_slice: "window_at w i xs = slice (i + 1 - w) i xs"
  by (simp add: window_at_def slice_def Let_def)


lemma rolling_mean_nth:
  assumes "i < length xs"
  shows "rolling_mean w m xs ! i = window_mean m (window_at w i (prep_values xs))"
  using assms by (simp add: rolling_mean_def prep_values_def)

lemma rolling_mean_Fin_nth:
  assumes "i < length cs" "0 < w"
  shows "rolling_mean w 1 (map Fin cs) ! i = Fin (mean (slice (i + 1 - w) i cs))"
proof -
  have "Suc 0 \<le> length (slice (i + 1 - w) i cs)"
    using assms by (simp add: slice_def)
  moreover from this have "slice (i + 1 - w) i cs \<noteq> []"
    by auto
  ultimately show ?thesis
    using assms(1)
    by (simp add: rolling_mean_nth prep_values_Fin window_at_slice slice_map fin_values_Fin
        window_mean_def mean_def Let_def)
qed

lemma rolling_windows_agree:
  assumes "i < w" "i < w'"
  shows "window_at w i xs = window_at w' i xs"
  using assms by (simp add: window_at_def)

lemma rolling_mean_agree:
  assumes "i < length xs" "i < w" "i < w'"
  shows "rolling_mean w m xs ! i = rolling_mean w' m xs ! i"
  using assms by (simp add: rolling_mean_nth rolling_windows_agree [of i w w'])

lemma rolling_mean_first:
  assumes "close \<noteq> []" "close ! 0 = Fin x" "0 < w"
  shows "rolling_mean w 1 close ! 0 = Fin x"
proof -
  obtain v vs where c: "close = v # vs"
    using assms(1) by (cases close) auto
  with assms(2) have v: "v = Fin x" by simp
  have "window_at w 0 (prep_values close) = [Fin x]"
    using assms(3) by (simp add: window_at_def prep_values_def c v)
  then show ?thesis
    using assms(1) by (simp add: rolling_mean_nth window_mean_def)
qed

section \<open>Daily returns\<close>










section \<open>The detector on the output of the engine\<close>

lemma pipeline_sign_zero:
  assumes "i < 20" "i < length close"
  shows "sign_of (fsub (rolling_mean 20 1 close ! i) (rolling_mean 50 1 close ! i)) = 0"
proof -
  have "rolling_mean 20 1 close ! i = rolling_mean 50 1 close ! i"
    using assms by (intro rolling_mean_agree) simp_all
  then show ?thesis
    by (simp add: sign_of_fsub_same)
qed

lemma pipeline_positions_late:
  assumes "p \<in> set (crossover_positions (rolling_mean 20 1 close) (rolling_mean 50 1 close) d)"
    and "d = 2 \<or> d = - 2"
  shows "21 \<le> p"
proof (rule ccontr)
  assume "\<not> 21 \<le> p"
  moreover from crossover_positions_subset [OF assms(1)]
  have p: "1 \<le> p" "p < length close"
    by (simp_all add: length_rolling_mean)
  ultimately have "p - 1 < 20" "p - 1 < length close"
    by simp_all
  then have "sign_of (fsub (rolling_mean 20 1 close ! (p - 1))
                           (rolling_mean 50 1 close ! (p - 1))) = 0"
    by (rule pipeline_sign_zero)
  with no_cross_after_tie [OF assms] show False by simp
qed

lemma pipeline_crossovers:
  assumes "frame_ok df" "getitem df ''Close'' = Inr close"
  obtains df' where "compute_indicators fm df = Inr df'"
    and "getitem df' ''MA_20'' = Inr (rolling_mean 20 1 close)"
    and "getitem df' ''MA_50'' = Inr (rolling_mean 50 1 close)"
    and "find_crossovers df' =
           Inr (map (\<lambda>i. index df ! i)
                  (crossover_positions (rolling_mean 20 1 close) (rolling_mean 50 1 close) 2),
                map (\<lambda>i. index df ! i)
                  (crossover_positions (rolling_mean 20 1 close) (rolling_mean 50 1 close) (- 2)))"
proof -
  obtain df' where run: "compute_indicators fm df = Inr df'"
    and idx: "index df' = index df"
    and cols: "getitem df' ''MA_20'' = Inr (rolling_mean 20 1 close)"
      "getitem df' ''MA_50'' = Inr (rolling_mean 50 1 close)"
    by (rule compute_indicators_columns [OF assms(2)])
  have n: "length close = length (index df)"
    by (rule frame_ok_getitem [OF assms])
  have "find_crossovers df' =
           Inr (map (\<lambda>i. index df' ! i)
                  (crossover_positions (rolling_mean 20 1 close) (rolling_mean 50 1 close) 2),
                map (\<lambda>i. index df' ! i)
                  (crossover_positions (rolling_mean 20 1 close) (rolling_mean 50 1 close) (- 2)))"
    by (rule find_crossovers_positions [OF cols]) (simp_all add: length_rolling_mean n idx)
  with run cols idx show ?thesis
    by (intro that [of df']) simp_all
qed

lemma ex_prices_positions:
  "crossover_positions (rolling_mean 20 1 (map Fin ex_closes))
       (rolling_mean 50 1 (map Fin ex_closes)) 2 = [21]"
  "crossover_positions (rolling_mean 20 1 (map Fin ex_closes))
       (rolling_mean 50 1 (map Fin ex_closes)) (- 2) = []"
  by code_simp+

lemma ex_prices_ok:
  "frame_ok ex_prices"
  "getitem ex_prices ''Close'' = Inr (map Fin ex_closes)"
  "index ex_prices = [0..<length (index ex_prices)]"
  by (simp_all add: frame_ok_def getitem_def ex_prices_def ex_closes_def)

lemma ex_prices_reaches_21:
  "\<exists>df1. compute_indicators fm ex_prices = Inr df1 \<and> find_crossovers df1 = Inr ([21], [])"
proof -
  obtain df1 where run: "compute_indicators fm ex_prices = Inr df1"
    and out: "find_crossovers df1 =
           Inr (map (\<lambda>i. index ex_prices ! i)
                  (crossover_positions (rolling_mean 20 1 (map Fin ex_closes))
                     (rolling_mean 50 1 (map Fin ex_closes)) 2),
                map (\<lambda>i. index ex_prices ! i)
                  (crossover_positions (rolling_mean 20 1 (map Fin ex_closes))
                     (rolling_mean 50 1 (map Fin ex_closes)) (- 2)))"
    by (rule pipeline_crossovers [OF ex_prices_ok(1,2)])
  have "index ex_prices ! 21 = 21"
    by (simp add: ex_prices_def)
  with out have "find_crossovers df1 = Inr ([21], [])"
    unfolding ex_prices_positions by simp
  with run show ?thesis by blast
qed

section \<open>Moving averages of a rising series\<close>

lemma sum_list_upper:
  fixes xs :: "real list"
  assumes "\<And>x. x \<in> set xs \<Longrightarrow> x \<le> b"
  shows "sum_list xs \<le> real (length xs) * b"
  using assms
proof (induction xs)
  case Nil
  then show ?case by simp
next
  case (Cons a xs)
  then have "a \<le> b" "sum_list xs \<le> real (length xs) * b"
    by simp_all
  then show ?case
    by (simp add: algebra_simps)
qed

lemma sum_list_lower:
  fixes xs :: "real list"
  assumes "\<And>x. x \<in> set xs \<Longrightarrow> b \<le> x"
  shows "real (length xs) * b \<le> sum_list xs"
  using assms
proof (induction xs)
  case Nil
  then show ?case by simp
next
  case (Cons a xs)
  then have "b \<le> a" "real (length xs) * b \<le> sum_list xs"
    by simp_all
  then show ?case
    by (simp add: algebra_simps)
qed

lemma mean_upper:
  assumes "xs \<noteq> []" "\<And>x. x \<in> set xs \<Longrightarrow> x \<le> b"
  shows "mean xs \<le> b"
proof -
  have "0 < real (length xs)"
    using assms(1) by simp
  moreover have "sum_list xs \<le> real (length xs) * b"
    by (rule sum_list_upper) (rule assms(2))
  ultimately show ?thesis
    unfolding mean_def by (simp add: pos_divide_le_eq mult.commute)
qed

lemma mean_append_le:
  assumes "zs \<noteq> []" "sorted (ys @ zs)"
  shows "mean (ys @ zs) \<le> mean zs"
proof -
  let ?a = "hd zs"
  let ?ny = "real (length ys)" and ?nz = "real (length zs)"
  have a: "?a \<in> set zs"
    using assms(1) by simp
  have "\<And>y. y \<in> set ys \<Longrightarrow> y \<le> ?a"
    using assms(2) a by (auto simp: sorted_append)
  then have sy: "sum_list ys \<le> ?ny * ?a"
    by (rule sum_list_upper)
  have "sorted zs"
    using assms(2) by (simp add: sorted_append)
  then have "\<And>z. z \<in> set zs \<Longrightarrow> ?a \<le> z"
    using assms(1) by (cases zs) auto
  then have sz: "?nz * ?a \<le> sum_list zs"
    by (rule sum_list_lower)
  have nz: "0 < ?nz"
    using assms(1) by simp
  have "?nz * sum_list ys \<le> ?nz * (?ny * ?a)"
    using sy nz by (simp add: mult_left_mono)
  also have "\<dots> = ?ny * (?nz * ?a)"
    by simp
  also have "\<dots> \<le> ?ny * sum_list zs"
    using sz by (simp add: mult_left_mono)
  finally have "(sum_list ys + sum_list zs) * ?nz \<le> (?ny + ?nz) * sum_list zs"
    by (simp add: algebra_simps)
  then have "sum_list ys + sum_list zs \<le> ((?ny + ?nz) * sum_list zs) / ?nz"
    using nz by (simp only: pos_le_divide_eq)
  also have "\<dots> = (sum_list zs / ?nz) * (?ny + ?nz)"
    by simp
  finally have le: "sum_list ys + sum_list zs \<le> (sum_list zs / ?nz) * (?ny + ?nz)" .
  have "0 < ?ny + ?nz"
    using nz by (simp add: add_nonneg_pos)
  with le have "(sum_list ys + sum_list zs) / (?ny + ?nz) \<le> sum_list zs / ?nz"
    by (simp only: pos_divide_le_eq)
  then show ?thesis
    by (simp add: mean_def)
qed

lemma slice_split:
  assumes "lo \<le> mid" "mid \<le> hi + 1"
  shows "slice lo hi xs = take (mid - lo) (drop lo xs) @ slice mid hi xs"
proof -
  have "hi + 1 - lo = (mid - lo) + (hi + 1 - mid)"
    using assms by simp
  then have "take (hi + 1 - lo) (drop lo xs)
      = take (mid - lo) (drop lo xs) @ take (hi + 1 - mid) (drop (mid - lo) (drop lo xs))"
    by (simp only: take_add)
  then show ?thesis
    using assms by (simp add: slice_def)
qed

lemma sorted_slice: "sorted xs \<Longrightarrow> sorted (slice lo hi xs)"
  by (simp add: slice_def sorted_wrt_take sorted_wrt_drop)

lemma slice_nonempty: "lo \<le> hi \<Longrightarrow> hi < length xs \<Longrightarrow> slice lo hi xs \<noteq> []"
  by (simp add: slice_def)

lemma slice_upper:
  assumes "sorted xs" "hi < length xs" "x \<in> set (slice lo hi xs)"
  shows "x \<le> xs ! hi"
proof -
  from assms(3) obtain k where k: "k < length (slice lo hi xs)" "x = slice lo hi xs ! k"
    by (auto simp: in_set_conv_nth)
  then have "k < hi + 1 - lo" "k < length xs - lo"
    by (simp_all add: slice_def)
  then have "k < hi + 1 - lo" "lo + k < length xs"
    by linarith+
  then have "x = xs ! (lo + k)" "lo + k \<le> hi"
    using k by (simp_all add: slice_def)
  with assms(1,2) show ?thesis
    by (simp add: sorted_nth_mono)
qed

lemma rising_mean_below_last:
  assumes "sorted cs" "i < length cs" "lo \<le> i"
  shows "mean (slice lo i cs) \<le> cs ! i"
proof -
  have "slice lo i cs \<noteq> []"
    using assms(3,2) by (rule slice_nonempty)
  then show ?thesis
    using assms(1,2) by (intro mean_upper) (auto intro: slice_upper)
qed

lemma rising_short_above_long:
  assumes "sorted cs" "i < length cs" "lo' \<le> lo" "lo \<le> i"
  shows "mean (slice lo' i cs) \<le> mean (slice lo i cs)"
proof -
  have split: "slice lo' i cs = take (lo - lo') (drop lo' cs) @ slice lo i cs"
    using assms(3,4) by (intro slice_split) simp_all
  have "slice lo i cs \<noteq> []"
    using assms(4,2) by (rule slice_nonempty)
  moreover have "sorted (take (lo - lo') (drop lo' cs) @ slice lo i cs)"
    using sorted_slice [OF assms(1), of lo' i] split by simp
  ultimately show ?thesis
    unfolding split by (rule mean_append_le)
qed

lemma rising_series_pipeline:
  assumes "frame_ok df" "getitem df ''Close'' = Inr (map Fin cs)" "sorted cs"
  obtains df' bullish where "compute_indicators fm df = Inr df'"
    and "getitem df' ''Close'' = Inr (map Fin cs)"
    and "getitem df' ''MA_20'' = Inr (rolling_mean 20 1 (map Fin cs))"
    and "\<forall>i. i < length cs \<longrightarrow> fle (rolling_mean 20 1 (map Fin cs) ! i) (Fin (cs ! i))"
    and "find_crossovers df' = Inr (bullish, [])"
proof -
  let ?s = "rolling_mean 20 1 (map Fin cs)" and ?l = "rolling_mean 50 1 (map Fin cs)"
  obtain df' where run: "compute_indicators fm df = Inr df'"
    and cols: "getitem df' ''MA_20'' = Inr ?s"
    and out: "find_crossovers df' =
           Inr (map (\<lambda>i. index df ! i) (crossover_positions ?s ?l 2),
                map (\<lambda>i. index df ! i) (crossover_positions ?s ?l (- 2)))"
    by (rule pipeline_crossovers [OF assms(1,2)])
  obtain df'' where "compute_indicators fm df = Inr df''"
    and "getitem df'' ''Close'' = Inr (map Fin cs)"
    by (rule compute_indicators_columns [OF assms(2)])
  with run have close: "getitem df' ''Close'' = Inr (map Fin cs)"
    by simp
  have short: "?s ! i = Fin (mean (slice (i - 19) i cs))" if "i < length cs" for i
    using rolling_mean_Fin_nth [OF that, of 20] by simp
  have long: "?l ! i = Fin (mean (slice (i - 49) i cs))" if "i < length cs" for i
    using rolling_mean_Fin_nth [OF that, of 50] by simp
  have below: "fle (?s ! i) (Fin (cs ! i))" if "i < length cs" for i
  proof -
    have "mean (slice (i - 19) i cs) \<le> cs ! i"
      using assms(3) that by (rule rising_mean_below_last) simp
    then show ?thesis
      using short [OF that] by (auto simp: fle_def feq_def)
  qed
  have "sign_of (fsub (?s ! j) (?l ! j)) \<noteq> - 1" if "j < length ?s" for j
  proof -
    have j: "j < length cs"
      using that by (simp add: length_rolling_mean)
    have "mean (slice (j - 49) j cs) \<le> mean (slice (j - 19) j cs)"
      using assms(3) j by (rule rising_short_above_long) simp_all
    then show ?thesis
      using short [OF j] long [OF j] by (simp add: sign_of_Fin)
  qed
  then have "crossover_positions ?s ?l (- 2) = []"
    by (rule no_bearish_without_negative_sign)
  with out have "find_crossovers df' = Inr (map (\<lambda>i. index df ! i) (crossover_positions ?s ?l 2), [])"
    by simp
  moreover have "\<forall>i. i < length cs \<longrightarrow> fle (?s ! i) (Fin (cs ! i))"
    using below by blast
  ultimately show ?thesis
    using run close cols by (intro that [of df']) simp_all
qed

section \<open>The engine leaves its argument alone\<close>

lemma heap_setitem_last:
  "heap_setitem (h @ [x]) (length h) name col = h @ [setitem x name col]"
  by (simp add: heap_setitem_def)

lemma compute_indicators_heap_raises:
  assumes "getitem (h ! arg) ''Close'' = Inl e"
  shows "compute_indicators_heap fm h arg = (Inl e, h @ [copy (h ! arg)])"
  using assms by (simp add: compute_indicators_heap_def heap_copy_def getitem_copy)

lemma compute_indicators_heap_returns:
  assumes "getitem (h ! arg) ''Close'' = Inr c"
  shows "\<exists>df'. compute_indicators fm (h ! arg) = Inr df'
               \<and> compute_indicators_heap fm h arg = (Inr (length h), h @ [df'])"
  using assms
  by (simp add: compute_indicators_heap_def heap_copy_def heap_setitem_last
      compute_indicators_def Let_def getitem_copy getitem_setitem_other)

section \<open>Failed downloads\<close>


section \<open>The claims\<close>

text \<open>
  C1. For two moving-average columns of one frame, the detector returns as bullish the
  labels at exactly the positions \<open>i \<ge> 1\<close> with \<open>sign[i] - sign[i-1] = 2\<close> and as
  bearish those with \<open>sign[i] - sign[i-1] = -2\<close>, in the order of the index; position
  0 is never among them. The sign of \<open>ma_short[i] - ma_long[i]\<close> is \<open>+1\<close> exactly when
  the difference is greater than zero, \<open>-1\<close> exactly when it is less than zero, and \<open>0\<close>
  in every other case, which for two numbers is exact equality.
\<close>

theorem C1_crossovers_at_sign_flips:
  assumes "getitem df ''MA_20'' = Inr ma_short" "getitem df ''MA_50'' = Inr ma_long"
    and "length ma_short = length (index df)" "length ma_long = length (index df)"
  shows "find_crossovers df =
           Inr (map (\<lambda>i. index df ! i) (crossover_positions ma_short ma_long 2),
                map (\<lambda>i. index df ! i) (crossover_positions ma_short ma_long (- 2)))
         \<and> 0 \<notin> set (crossover_positions ma_short ma_long 2)
         \<and> 0 \<notin> set (crossover_positions ma_short ma_long (- 2))
         \<and> (sign_of (fsub a b) = 1) = fgt (fsub a b) (Fin 0)
         \<and> (sign_of (fsub a b) = - 1) = flt (fsub a b) (Fin 0)
         \<and> (sign_of (fsub a b) = 0) = (\<not> fgt (fsub a b) (Fin 0) \<and> \<not> flt (fsub a b) (Fin 0))
         \<and> (sign_of (fsub (Fin x) (Fin y)) = 0) = (x = y)
         \<and> sign_of (fsub a a) = 0"
proof -
  have pos: "0 \<notin> set (crossover_positions ma_short ma_long d)" for d
    by (simp add: crossover_positions_def)
  have excl: "\<not> (fgt v (Fin 0) \<and> flt v (Fin 0))" for v
    by (cases v) (simp_all add: fgt_def)
  have s1: "(sign_of v = 1) = fgt v (Fin 0)" for v
    by (simp add: sign_of_def)
  have s2: "(sign_of v = - 1) = flt v (Fin 0)" for v
    using excl [of v] by (auto simp: sign_of_def)
  have s3: "(sign_of v = 0) = (\<not> fgt v (Fin 0) \<and> \<not> flt v (Fin 0))" for v
    by (simp add: sign_of_def)
  have s4: "(sign_of (fsub (Fin x) (Fin y)) = 0) = (x = y)"
    by (simp add: sign_of_Fin)
  show ?thesis
    using find_crossovers_positions [OF assms] pos s1 s2 s3 s4 sign_of_fsub_same
    by blast
qed

theorem C1_crossovers_at_sign_flips_witness:
  "getitem ex_cross ''MA_20'' = Inr [Fin 5, Fin 7, Fin 7, Fin 4, Fin 9, Fin 3]
   \<and> getitem ex_cross ''MA_50'' = Inr [Fin 6, Fin 6, Fin 7, Fin 8, Fin 8, Fin 8]
   \<and> find_crossovers ex_cross = Inr ([20, 50], [60])
   \<and> crossover_positions [Fin 5, Fin 7, Fin 7, Fin 4, Fin 9, Fin 3] [Fin 6, Fin 6, Fin 7, Fin 8, Fin 8, Fin 8] 2 = [1, 4]
   \<and> crossover_positions [Fin 5, Fin 7, Fin 7, Fin 4, Fin 9, Fin 3] [Fin 6, Fin 6, Fin 7, Fin 8, Fin 8, Fin 8] (- 2) = [5]"
proof -
  have g: "getitem ex_cross ''MA_20'' = Inr [Fin 5, Fin 7, Fin 7, Fin 4, Fin 9, Fin 3]"
      "getitem ex_cross ''MA_50'' = Inr [Fin 6, Fin 6, Fin 7, Fin 8, Fin 8, Fin 8]"
    by (simp_all add: ex_cross_def getitem_def)
  have p: "crossover_positions [Fin 5, Fin 7, Fin 7, Fin 4, Fin 9, Fin 3] [Fin 6, Fin 6, Fin 7, Fin 8, Fin 8, Fin 8] 2 = [1, 4]"
      "crossover_positions [Fin 5, Fin 7, Fin 7, Fin 4, Fin 9, Fin 3] [Fin 6, Fin 6, Fin 7, Fin 8, Fin 8, Fin 8] (- 2) = [5]"
    by (simp_all add: crossover_positions_def sign_of_Fin upt_conv_Cons)
  have "find_crossovers ex_cross = Inr ([20, 50], [60])"
    using C1_crossovers_at_sign_flips [OF g, of NaN NaN 0 0] p
    by (simp add: ex_cross_def)
  with g p show ?thesis by simp
qed



text \<open>
  C3. A tie never registers as a cross: a position whose sign is 0 is not reported, and
  neither is the position after it. When every step of the sign sequence has magnitude
  at most 1, as in \<open>[-1, 0, +1]\<close>, the detector reports no crossover at all.
\<close>

theorem C3_ties_are_not_crosses:
  assumes "getitem df ''MA_20'' = Inr ma_short" "getitem df ''MA_50'' = Inr ma_long"
    and "length ma_short = length (index df)" "length ma_long = length (index df)"
  shows "find_crossovers df =
           Inr (map (\<lambda>i. index df ! i) (crossover_positions ma_short ma_long 2),
                map (\<lambda>i. index df ! i) (crossover_positions ma_short ma_long (- 2)))
         \<and> (sign_of (fsub (ma_short ! i) (ma_long ! i)) = 0 \<longrightarrow>
              i \<notin> set (crossover_positions ma_short ma_long 2)
              \<and> i \<notin> set (crossover_positions ma_short ma_long (- 2))
              \<and> Suc i \<notin> set (crossover_positions ma_short ma_long 2)
              \<and> Suc i \<notin> set (crossover_positions ma_short ma_long (- 2)))
         \<and> ((\<forall>j. 1 \<le> j \<and> j < length (index df) \<longrightarrow>
                \<bar>sign_of (fsub (ma_short ! j) (ma_long ! j))
                  - sign_of (fsub (ma_short ! (j - 1)) (ma_long ! (j - 1)))\<bar> \<le> 1) \<longrightarrow>
              find_crossovers df = Inr ([], []))
         \<and> (map sign_of (series_sub ma_short ma_long) = [- 1, 0, 1] \<longrightarrow>
              find_crossovers df = Inr ([], []))"
proof -
  let ?sg = "\<lambda>j. sign_of (fsub (ma_short ! j) (ma_long ! j))"
  note run = find_crossovers_positions [OF assms]
  have tie: "i \<notin> set (crossover_positions ma_short ma_long d)
             \<and> Suc i \<notin> set (crossover_positions ma_short ma_long d)"
    if "?sg i = 0" "d = 2 \<or> d = - 2" for d
  proof -
    have "?sg i - ?sg (i - 1) \<noteq> d"
      using that sign_of_cases [of "fsub (ma_short ! (i - 1)) (ma_long ! (i - 1))"] by auto
    moreover have "?sg (Suc i) - ?sg i \<noteq> d"
      using that sign_of_cases [of "fsub (ma_short ! Suc i) (ma_long ! Suc i)"] by auto
    ultimately show ?thesis
      by (auto dest: crossover_positions_subset)
  qed
  have small: "find_crossovers df = Inr ([], [])"
    if "\<forall>j. 1 \<le> j \<and> j < length (index df) \<longrightarrow> \<bar>?sg j - ?sg (j - 1)\<bar> \<le> 1"
  proof -
    have "crossover_positions ma_short ma_long d = []" if "d = 2 \<or> d = - 2" for d
    proof (rule crossover_positions_empty)
      fix j assume "1 \<le> j" "j < length ma_short"
      then have "\<bar>?sg j - ?sg (j - 1)\<bar> \<le> 1"
        using \<open>\<forall>j. _\<close> assms(3) by simp
      with that show "?sg j - ?sg (j - 1) \<noteq> d" by auto
    qed
    then show ?thesis using run by simp
  qed
  have three: "find_crossovers df = Inr ([], [])"
    if "map sign_of (series_sub ma_short ma_long) = [- 1, 0, 1]"
  proof -
    have sig: "series_diff (map sign_of (series_sub ma_short ma_long)) = [NaN, Fin 1, Fin 1]"
      unfolding that by (simp add: series_diff_def)
    have "length (map sign_of (series_sub ma_short ma_long)) = 3"
      unfolding that by simp
    then have "length (index df) = 3"
      using assms(3,4) by (simp add: length_series_sub)
    then obtain t0 t1 t2 where idx: "index df = [t0, t1, t2]"
      by (auto simp: length_Suc_conv eval_nat_numeral)
    show ?thesis
      using assms(1,2)
      by (simp add: find_crossovers_def Let_def sig idx index_mask_def feq_def)
  qed
  show ?thesis
    using run tie small three by simp
qed

theorem C3_ties_are_not_crosses_witness:
  "getitem ex_tie ''MA_20'' = Inr [Fin 1, Fin 2, Fin 3]
   \<and> getitem ex_tie ''MA_50'' = Inr [Fin 2, Fin 2, Fin 2]
   \<and> map sign_of (series_sub [Fin 1, Fin 2, Fin 3] [Fin 2, Fin 2, Fin 2]) = [- 1, 0, 1]
   \<and> sign_of (fsub ([Fin 1, Fin 2, Fin 3] ! 1) ([Fin 2, Fin 2, Fin 2] ! 1)) = 0
   \<and> find_crossovers ex_tie = Inr ([], [])
   \<and> 1 \<notin> set (crossover_positions [Fin 1, Fin 2, Fin 3] [Fin 2, Fin 2, Fin 2] 2)
   \<and> 2 \<notin> set (crossover_positions [Fin 1, Fin 2, Fin 3] [Fin 2, Fin 2, Fin 2] 2)"
proof -
  have g: "getitem ex_tie ''MA_20'' = Inr [Fin 1, Fin 2, Fin 3]"
      "getitem ex_tie ''MA_50'' = Inr [Fin 2, Fin 2, Fin 2]"
    by (simp_all add: ex_tie_def getitem_def)
  have len: "length [Fin 1, Fin 2, Fin 3] = length (index ex_tie)"
      "length [Fin 2, Fin 2, Fin 2] = length (index ex_tie)"
    by (simp_all add: ex_tie_def)
  have sg: "map sign_of (series_sub [Fin 1, Fin 2, Fin 3] [Fin 2, Fin 2, Fin 2]) = [- 1, 0, 1]"
    by (simp add: series_sub_def sign_of_Fin)
  have tie: "sign_of (fsub ([Fin 1, Fin 2, Fin 3] ! 1) ([Fin 2, Fin 2, Fin 2] ! 1)) = 0"
    by (simp add: sign_of_Fin)
  have p: "crossover_positions [Fin 1, Fin 2, Fin 3] [Fin 2, Fin 2, Fin 2] 2 = []"
      "crossover_positions [Fin 1, Fin 2, Fin 3] [Fin 2, Fin 2, Fin 2] (- 2) = []"
    by (simp_all add: crossover_positions_def sign_of_Fin upt_conv_Cons)
  show ?thesis
    using C3_ties_are_not_crosses [OF g len, of 1] g sg tie p by simp
qed








text \<open>
  C7. The engine leaves the object it is given, and every other object that existed
  before the call, as it was; the frame it returns is a new object, at a reference that
  was not in use before, and holds the computed columns.
\<close>

theorem C7_input_not_mutated:
  assumes "arg < length h"
  shows "snd (compute_indicators_heap fm h arg) ! arg = h ! arg
         \<and> take (length h) (snd (compute_indicators_heap fm h arg)) = h
         \<and> (case fst (compute_indicators_heap fm h arg) of
               Inr r \<Rightarrow> r = length h \<and> r \<noteq> arg
                        \<and> r < length (snd (compute_indicators_heap fm h arg))
                        \<and> compute_indicators fm (h ! arg)
                            = Inr (snd (compute_indicators_heap fm h arg) ! r)
             | Inl e \<Rightarrow> compute_indicators fm (h ! arg) = Inl e)"
proof (cases "getitem (h ! arg) ''Close''")
  case (Inl e)
  then show ?thesis
    using assms compute_indicators_heap_raises [OF Inl, of fm]
      compute_indicators_no_close [OF Inl, of fm]
    by (simp add: nth_append)
next
  case (Inr c)
  then obtain df' where "compute_indicators fm (h ! arg) = Inr df'"
    "compute_indicators_heap fm h arg = (Inr (length h), h @ [df'])"
    using compute_indicators_heap_returns by blast
  then show ?thesis
    using assms by (simp add: nth_append)
qed

theorem C7_input_not_mutated_witness:
  "(0::nat) < length [ex_returns]
   \<and> snd (compute_indicators_heap Pad [ex_returns] 0) ! 0 = ex_returns
   \<and> fst (compute_indicators_heap Pad [ex_returns] 0) = Inr 1
   \<and> length (snd (compute_indicators_heap Pad [ex_returns] 0)) = 2
   \<and> compute_indicators Pad ex_returns = Inr (snd (compute_indicators_heap Pad [ex_returns] 0) ! 1)"
proof -
  have l: "(0::nat) < length [ex_returns]"
    by simp
  have g: "getitem ([ex_returns] ! 0) ''Close'' = Inr [Fin 2, Fin 4, Fin 0, Fin 3]"
    by (simp add: getitem_def ex_returns_def)
  obtain df' where r: "compute_indicators_heap Pad [ex_returns] 0 = (Inr (length [ex_returns]), [ex_returns] @ [df'])"
    using compute_indicators_heap_returns [OF g] by blast
  show ?thesis
    using C7_input_not_mutated [OF l, of Pad] r by simp
qed

text \<open>
  C8. When the differences of the two moving averages have the signs
  \<open>[-1, -1, +1, +1, -1]\<close>, the detector returns exactly one bullish crossover, the
  label at position 2, and exactly one bearish crossover, the label at position 4;
  nothing is reported for positions 0 and 1.
\<close>

theorem C8_worked_example:
  assumes "getitem df ''MA_20'' = Inr ma_short" "getitem df ''MA_50'' = Inr ma_long"
    and "map sign_of (series_sub ma_short ma_long) = [- 1, - 1, 1, 1, - 1]"
    and "length (index df) = 5"
  shows "find_crossovers df = Inr ([index df ! 2], [index df ! 4])"
proof -
  obtain t0 t1 t2 t3 t4 where idx: "index df = [t0, t1, t2, t3, t4]"
    using assms(4) by (auto simp: length_Suc_conv eval_nat_numeral)
  have sig: "series_diff (map sign_of (series_sub ma_short ma_long))
               = [NaN, Fin 0, Fin 2, Fin 0, Fin (- 2)]"
    unfolding assms(3) by (simp add: series_diff_def)
  show ?thesis
    using assms(1,2)
    by (simp add: find_crossovers_def Let_def sig idx index_mask_def feq_def)
qed

theorem C8_worked_example_witness:
  "getitem ex_five ''MA_20'' = Inr [Fin 1, Fin 1, Fin 3, Fin 3, Fin 1]
   \<and> getitem ex_five ''MA_50'' = Inr [Fin 2, Fin 2, Fin 2, Fin 2, Fin 2]
   \<and> map sign_of (series_sub [Fin 1, Fin 1, Fin 3, Fin 3, Fin 1]
                               [Fin 2, Fin 2, Fin 2, Fin 2, Fin 2]) = [- 1, - 1, 1, 1, - 1]
   \<and> length (index ex_five) = 5
   \<and> find_crossovers ex_five = Inr ([2], [4])"
proof -
  have g: "getitem ex_five ''MA_20'' = Inr [Fin 1, Fin 1, Fin 3, Fin 3, Fin 1]"
      "getitem ex_five ''MA_50'' = Inr [Fin 2, Fin 2, Fin 2, Fin 2, Fin 2]"
    by (simp_all add: ex_five_def getitem_def)
  have sg: "map sign_of (series_sub [Fin 1, Fin 1, Fin 3, Fin 3, Fin 1]
                               [Fin 2, Fin 2, Fin 2, Fin 2, Fin 2]) = [- 1, - 1, 1, 1, - 1]"
    by (simp add: series_sub_def sign_of_Fin)
  have len: "length (index ex_five) = 5"
    by (simp add: ex_five_def)
  show ?thesis
    using C8_worked_example [OF g sg len] g sg len by (simp add: ex_five_def)
qed

text \<open>
  C9. For the 60 closes \<open>close[i] = 100 + i\<close>, the short moving average is at most the
  close at every position, and the detector reports no bearish crossover on the frame
  that the engine returns.
\<close>

theorem C9_rising_series:
  "\<exists>df' close ma_short bullish.
      compute_indicators fm ex_rising = Inr df'
      \<and> getitem df' ''Close'' = Inr close
      \<and> getitem df' ''MA_20'' = Inr ma_short
      \<and> length close = 60 \<and> length ma_short = 60
      \<and> (\<forall>i. i < 60 \<longrightarrow> close ! i = Fin (100 + real i) \<and> fle (ma_short ! i) (close ! i))
      \<and> find_crossovers df' = Inr (bullish, [])"
proof -
  let ?cs = "map (\<lambda>i. 100 + real i) [0..<60]"
  have ok: "frame_ok ex_rising"
    by (simp add: frame_ok_def ex_rising_def)
  have g: "getitem ex_rising ''Close'' = Inr (map Fin ?cs)"
    by (simp add: getitem_def ex_rising_def comp_def)
  have srt: "sorted ?cs"
    by (rule sorted_wrt_map_mono [OF sorted_upt]) simp
  obtain df' bullish where run: "compute_indicators fm ex_rising = Inr df'"
    and close: "getitem df' ''Close'' = Inr (map Fin ?cs)"
    and short: "getitem df' ''MA_20'' = Inr (rolling_mean 20 1 (map Fin ?cs))"
    and below: "\<forall>i. i < length ?cs \<longrightarrow> fle (rolling_mean 20 1 (map Fin ?cs) ! i) (Fin (?cs ! i))"
    and out: "find_crossovers df' = Inr (bullish, [])"
    by (rule rising_series_pipeline [OF ok g srt, where fm = fm])
  have "map Fin ?cs ! i = Fin (100 + real i)
        \<and> fle (rolling_mean 20 1 (map Fin ?cs) ! i) (map Fin ?cs ! i)" if "i < 60" for i
    using that below [rule_format, of i] by simp
  moreover have "length (map Fin ?cs) = 60" "length (rolling_mean 20 1 (map Fin ?cs)) = 60"
    by (simp_all add: length_rolling_mean)
  ultimately show ?thesis
    using run close short out by blast
qed

theorem C9_rising_series_witness:
  "(59::nat) < 60
   \<and> (\<exists>df' close ma_short bullish.
      compute_indicators NoFill ex_rising = Inr df'
      \<and> getitem df' ''Close'' = Inr close
      \<and> getitem df' ''MA_20'' = Inr ma_short
      \<and> close ! 59 = Fin 159 \<and> fle (ma_short ! 59) (close ! 59)
      \<and> find_crossovers df' = Inr (bullish, []))"
proof -
  obtain df' close ma_short bullish where r: "compute_indicators NoFill ex_rising = Inr df'"
      "getitem df' ''Close'' = Inr close" "getitem df' ''MA_20'' = Inr ma_short"
      "find_crossovers df' = Inr (bullish, [])"
    and v: "\<forall>i. i < 60 \<longrightarrow> close ! i = Fin (100 + real i) \<and> fle (ma_short ! i) (close ! i)"
    using C9_rising_series [of NoFill] by blast
  from v have "(59::nat) < 60 \<longrightarrow> close ! 59 = Fin (100 + real 59) \<and> fle (ma_short ! 59) (close ! 59)"
    by (rule spec)
  then have "close ! 59 = Fin 159" "fle (ma_short ! 59) (close ! 59)"
    by auto
  with r show ?thesis by auto
qed

text \<open>
  C10, as amended. For every frame with a \<open>Close\<close> column: when the first close is a
  number, both moving averages equal it at position 0; at each of the first 20
  positions both windows hold the same cells, so the sign of the difference is 0 there;
  consequently every reported position, bullish or bearish, is at least 21. Position 21
  is reported for some price series, so it is the earliest that can appear.
\<close>

theorem C10_no_crossover_before_21:
  assumes "frame_ok df" "getitem df ''Close'' = Inr close"
  shows "(\<exists>df' ma_short ma_long.
           compute_indicators fm df = Inr df'
           \<and> getitem df' ''MA_20'' = Inr ma_short
           \<and> getitem df' ''MA_50'' = Inr ma_long
           \<and> (close \<noteq> [] \<and> close ! 0 = Fin x \<longrightarrow>
                 ma_short ! 0 = close ! 0 \<and> ma_long ! 0 = close ! 0)
           \<and> (\<forall>i. i < 20 \<and> i < length close \<longrightarrow>
                 sign_of (fsub (ma_short ! i) (ma_long ! i)) = 0)
           \<and> find_crossovers df' =
                 Inr (map (\<lambda>i. index df ! i) (crossover_positions ma_short ma_long 2),
                      map (\<lambda>i. index df ! i) (crossover_positions ma_short ma_long (- 2)))
           \<and> (\<forall>p. p \<in> set (crossover_positions ma_short ma_long 2)
                   \<or> p \<in> set (crossover_positions ma_short ma_long (- 2)) \<longrightarrow> 21 \<le> p))
         \<and> (\<exists>(df0 :: nat frame) df1.
               frame_ok df0 \<and> index df0 = [0..<length (index df0)]
               \<and> compute_indicators fm df0 = Inr df1
               \<and> find_crossovers df1 = Inr ([21], []))"
proof -
  let ?s = "rolling_mean 20 1 close" and ?l = "rolling_mean 50 1 close"
  obtain df' where run: "compute_indicators fm df = Inr df'"
    and cols: "getitem df' ''MA_20'' = Inr ?s" "getitem df' ''MA_50'' = Inr ?l"
    and out: "find_crossovers df' =
           Inr (map (\<lambda>i. index df ! i) (crossover_positions ?s ?l 2),
                map (\<lambda>i. index df ! i) (crossover_positions ?s ?l (- 2)))"
    by (rule pipeline_crossovers [OF assms])
  have first: "?s ! 0 = close ! 0 \<and> ?l ! 0 = close ! 0" if "close \<noteq> [] \<and> close ! 0 = Fin x"
    using that rolling_mean_first [of close x 20] rolling_mean_first [of close x 50] by simp
  have zero: "sign_of (fsub (?s ! i) (?l ! i)) = 0" if "i < 20 \<and> i < length close" for i
    using that pipeline_sign_zero [of i close] by blast
  have late: "21 \<le> p"
    if "p \<in> set (crossover_positions ?s ?l 2) \<or> p \<in> set (crossover_positions ?s ?l (- 2))" for p
    using that pipeline_positions_late [of p close] by blast
  have bound: "\<exists>df' ma_short ma_long.
           compute_indicators fm df = Inr df'
           \<and> getitem df' ''MA_20'' = Inr ma_short
           \<and> getitem df' ''MA_50'' = Inr ma_long
           \<and> (close \<noteq> [] \<and> close ! 0 = Fin x \<longrightarrow>
                 ma_short ! 0 = close ! 0 \<and> ma_long ! 0 = close ! 0)
           \<and> (\<forall>i. i < 20 \<and> i < length close \<longrightarrow>
                 sign_of (fsub (ma_short ! i) (ma_long ! i)) = 0)
           \<and> find_crossovers df' =
                 Inr (map (\<lambda>i. index df ! i) (crossover_positions ma_short ma_long 2),
                      map (\<lambda>i. index df ! i) (crossover_positions ma_short ma_long (- 2)))
           \<and> (\<forall>p. p \<in> set (crossover_positions ma_short ma_long 2)
                   \<or> p \<in> set (crossover_positions ma_short ma_long (- 2)) \<longrightarrow> 21 \<le> p)"
    using run cols out first zero late by blast
  have reached: "\<exists>(df0 :: nat frame) df1.
               frame_ok df0 \<and> index df0 = [0..<length (index df0)]
               \<and> compute_indicators fm df0 = Inr df1
               \<and> find_crossovers df1 = Inr ([21], [])"
    using ex_prices_ok(1,3) ex_prices_reaches_21 [of fm] by blast
  from bound reached show ?thesis ..
qed

theorem C10_no_crossover_before_21_witness:
  "frame_ok ex_prices
   \<and> getitem ex_prices ''Close'' = Inr (map Fin ex_closes)
   \<and> map Fin ex_closes \<noteq> [] \<and> map Fin ex_closes ! 0 = Fin 10
   \<and> (0::nat) < 20 \<and> 0 < length (map Fin ex_closes)
   \<and> (\<exists>df' ma_short ma_long.
         compute_indicators Pad ex_prices = Inr df'
         \<and> getitem df' ''MA_20'' = Inr ma_short
         \<and> getitem df' ''MA_50'' = Inr ma_long
         \<and> ma_short ! 0 = Fin 10 \<and> ma_long ! 0 = Fin 10
         \<and> sign_of (fsub (ma_short ! 0) (ma_long ! 0)) = 0
         \<and> find_crossovers df' = Inr ([21], [])
         \<and> (\<forall>p. p \<in> set (crossover_positions ma_short ma_long 2) \<longrightarrow> 21 \<le> p))"
proof -
  have ok: "frame_ok ex_prices"
    by (simp add: frame_ok_def ex_prices_def ex_closes_def)
  have g: "getitem ex_prices ''Close'' = Inr (map Fin ex_closes)"
    by (simp add: getitem_def ex_prices_def)
  have c: "map Fin ex_closes \<noteq> []" "map Fin ex_closes ! 0 = Fin 10"
      "0 < length (map Fin ex_closes)"
    by (simp_all add: ex_closes_def)
  obtain df' ma_short ma_long where r: "compute_indicators Pad ex_prices = Inr df'"
      "getitem df' ''MA_20'' = Inr ma_short" "getitem df' ''MA_50'' = Inr ma_long"
    and f: "map Fin ex_closes \<noteq> [] \<and> map Fin ex_closes ! 0 = Fin 10 \<longrightarrow>
              ma_short ! 0 = map Fin ex_closes ! 0 \<and> ma_long ! 0 = map Fin ex_closes ! 0"
    and z: "\<forall>i. i < 20 \<and> i < length (map Fin ex_closes) \<longrightarrow>
              sign_of (fsub (ma_short ! i) (ma_long ! i)) = 0"
    and l: "\<forall>p. p \<in> set (crossover_positions ma_short ma_long 2)
                   \<or> p \<in> set (crossover_positions ma_short ma_long (- 2)) \<longrightarrow> 21 \<le> p"
    using C10_no_crossover_before_21 [OF ok g, where x = 10 and fm = Pad] by blast
  have "find_crossovers df' = Inr ([21], [])"
    using ex_prices_reaches_21 [of Pad] r(1) by auto
  moreover have "sign_of (fsub (ma_short ! 0) (ma_long ! 0)) = 0"
    using z c(3) by simp
  moreover have "ma_short ! 0 = Fin 10" "ma_long ! 0 = Fin 10"
    using f c by simp_all
  ultimately have "\<exists>df' ma_short ma_long.
         compute_indicators Pad ex_prices = Inr df'
         \<and> getitem df' ''MA_20'' = Inr ma_short
         \<and> getitem df' ''MA_50'' = Inr ma_long
         \<and> ma_short ! 0 = Fin 10 \<and> ma_long ! 0 = Fin 10
         \<and> sign_of (fsub (ma_short ! 0) (ma_long ! 0)) = 0
         \<and> find_crossovers df' = Inr ([21], [])
         \<and> (\<forall>p. p \<in> set (crossover_positions ma_short ma_long 2) \<longrightarrow> 21 \<le> p)"
    using r l by blast
  with ok g c show ?thesis by simp
qed

text \<open>
  Position 2 is not the earliest that can appear: on frames labelled by position, no
  run of the engine followed by the detector ever reports the label 2.
\<close>

theorem C10_index_2_never_reported:
  "\<not> (\<exists>fm (df :: nat frame) df' bullish bearish.
         frame_ok df \<and> index df = [0..<length (index df)]
         \<and> compute_indicators fm df = Inr df'
         \<and> find_crossovers df' = Inr (bullish, bearish)
         \<and> (2 \<in> set bullish \<or> 2 \<in> set bearish))"
proof
  assume "\<exists>fm (df :: nat frame) df' bullish bearish.
         frame_ok df \<and> index df = [0..<length (index df)]
         \<and> compute_indicators fm df = Inr df'
         \<and> find_crossovers df' = Inr (bullish, bearish)
         \<and> (2 \<in> set bullish \<or> 2 \<in> set bearish)"
  then obtain fm and df :: "nat frame" and df' bullish bearish
    where ok: "frame_ok df" and idx: "index df = [0..<length (index df)]"
      and run: "compute_indicators fm df = Inr df'"
      and out: "find_crossovers df' = Inr (bullish, bearish)"
      and two: "2 \<in> set bullish \<or> 2 \<in> set bearish"
    by blast
  obtain close where g: "getitem df ''Close'' = Inr close"
    using run compute_indicators_no_close [of df _ fm]
    by (cases "getitem df ''Close''") auto
  let ?s = "rolling_mean 20 1 close" and ?l = "rolling_mean 50 1 close"
  have n: "length close = length (index df)"
    by (rule frame_ok_getitem [OF ok g])
  obtain df'' where "compute_indicators fm df = Inr df''"
    and "find_crossovers df'' =
           Inr (map (\<lambda>i. index df ! i) (crossover_positions ?s ?l 2),
                map (\<lambda>i. index df ! i) (crossover_positions ?s ?l (- 2)))"
    by (rule pipeline_crossovers [OF ok g])
  with run out have lists: "bullish = map (\<lambda>i. index df ! i) (crossover_positions ?s ?l 2)"
      "bearish = map (\<lambda>i. index df ! i) (crossover_positions ?s ?l (- 2))"
    by simp_all
  have label: "index df ! p = p" if "p \<in> set (crossover_positions ?s ?l d)" for p d
  proof -
    have "p < length (index df)"
      using crossover_positions_subset [OF that] n by (simp add: length_rolling_mean)
    then show ?thesis
      by (subst idx) simp
  qed
  from two lists obtain d where d: "d = 2 \<or> d = - 2"
    and "2 \<in> (\<lambda>i. index df ! i) ` set (crossover_positions ?s ?l d)"
    by auto
  then obtain p where p: "p \<in> set (crossover_positions ?s ?l d)" "index df ! p = 2"
    by auto
  with label have "p = 2" by simp
  with pipeline_positions_late [OF p(1) d] show False by simp
qed

end
